theory Spec2Isabelle
  imports Complex_Main
begin

section \<open>Values, rows and the query builder of the wrapped client\<close>

text \<open>
  \<open>BaseRepository<T>\<close> (src/base-repository.ts) holds a table name and a database
  client and builds every query through the client's fluent builder. The client is
  an external library: the repository never looks inside it. It is therefore a
  parameter of the model, a function from the built query and the state of the
  remote database to a response \<open>{ data, error, count }\<close> and the next state.

  Field values are JavaScript values; an entity (a row, an object literal) is a list
  of key/value pairs with the keys in insertion order.
\<close>

datatype jsval = Undefined | Null | Bool bool | Num int | Str string

type_synonym row = "(string \<times> jsval) list"

text \<open>Reading a property: a key that is absent reads as \<open>undefined\<close>.\<close>

definition get_prop :: "row \<Rightarrow> string \<Rightarrow> jsval" where
  "get_prop obj k = (case map_of obj k of Some v \<Rightarrow> v | None \<Rightarrow> Undefined)"

text \<open>
  The rest pattern of a destructuring, \<open>const { id, ...updateData } = record\<close>:
  every own property except the named one, in the original order.
\<close>

definition rest_without :: "string \<Rightarrow> row \<Rightarrow> row" where
  "rest_without k obj = [(k', v) \<leftarrow> obj. k' \<noteq> k]"

text \<open>
  A query is the chain of builder calls made on \<open>client.from(table)\<close>, in call
  order and with the arguments as written; what the chain means is the client's
  business. \<open>Select\<close> carries the optional column list and the \<open>count\<close> and
  \<open>head\<close> options; \<open>Other\<close> stands for the builder methods only caller-supplied
  filters use (\<open>gte\<close>, \<open>ilike\<close>, \<open>not\<close>, ...).
\<close>

datatype payload = Object row | Array "row list"

datatype builder_call =
    From string
  | Select "string option" "string option" bool
  | Insert payload
  | Update row
  | Upsert row string
  | Delete
  | Eq string jsval
  | In string "jsval list"
  | Order string bool
  | Range int int
  | Single
  | Other string string "jsval list"

type_synonym query = "builder_call list"

text \<open>
  \<open>PostgrestError\<close>: the error object of a response, with its code and message. A
  response is \<open>{ data, error, count }\<close>: \<open>data\<close> is null, one row or an array of
  rows; \<open>error\<close> is null (\<open>None\<close>) or an error object, so that \<open>if (error)\<close>
  is the test for \<open>Some\<close>; \<open>count\<close> is null (\<open>None\<close>) or a number.
\<close>

datatype client_error = PostgrestError (code: string) (message: string)

datatype data = DNull | DRow row | DRows "row list"

record response =
  resp_data :: data
  resp_error :: "client_error option"
  resp_count :: "int option"

type_synonym 's client = "query \<Rightarrow> 's \<Rightarrow> response \<times> 's"

section \<open>Types of src/types.ts\<close>

text \<open>
  The names are those of the source, except where a name is taken: the option
  \<open>filter\<close> is \<open>filter_fn\<close> and the method \<open>find\<close> is \<open>find_rows\<close> (both are
  list functions of HOL), and the fields \<open>page\<close> and \<open>pageSize\<close> of
  \<open>Pagination\<close> carry the prefix \<open>pg_\<close>, as \<open>FindPaginatedOptions\<close> has fields
  of the same names.
\<close>

type_synonym FilterFunction = "query \<Rightarrow> query"

record OrderBy =
  column :: string
  ascending :: "bool option"

text \<open>\<open>orderBy?: OrderBy | OrderBy[]\<close>\<close>

datatype OrderBySpec = OneOrder OrderBy | OrderArray "OrderBy list"

record FindOptions =
  filter_fn :: "FilterFunction option"
  orderBy :: "OrderBySpec option"

record FindPaginatedOptions = FindOptions +
  page :: int
  pageSize :: int

text \<open>
  A JavaScript number as far as pagination needs it: a finite value, an infinity or
  NaN. \<open>page\<close>, \<open>pageSize\<close> and the reported count are integer-valued numbers
  (type \<open>int\<close>), on which \<open>-\<close>, \<open>*\<close> and \<open>+\<close> are exact; the quotient
  \<open>totalCount / pageSize\<close> is a fraction, or an infinity or NaN when the
  divisor is zero. Negative zero is not told apart from zero (\<open>-0 === 0\<close>).
\<close>

datatype jsnum = Fin rat | PosInfinity | NegInfinity | NaN

definition js_div :: "int \<Rightarrow> int \<Rightarrow> jsnum" where
  "js_div a b =
     (if b = 0 then (if a = 0 then NaN else if 0 < a then PosInfinity else NegInfinity)
      else Fin (of_int a / of_int b))"

definition Math_ceil :: "jsnum \<Rightarrow> jsnum" where
  "Math_ceil x = (case x of Fin q \<Rightarrow> Fin (of_int \<lceil>q\<rceil>) | _ \<Rightarrow> x)"

record Pagination =
  pg_page :: int
  pg_pageSize :: int
  totalCount :: int
  totalPages :: jsnum

record PaginatedResult =
  items :: data
  pagination :: Pagination

section \<open>The repository\<close>

record 's repository =
  tableName :: string
  client :: "'s client"

text \<open>
  The world a method runs in: the state of the remote database and the log of
  every exchange with the client so far (the query awaited and the response it got).
\<close>

record 's world =
  db :: 's
  exchanges :: "(query \<times> response) list"

text \<open>\<open>await query\<close>: hand the query to the client, suspend until the response is there.\<close>

definition await :: "'s repository \<Rightarrow> query \<Rightarrow> 's world \<Rightarrow> response \<times> 's world" where
  "await repo q w =
     (case client repo q (db w) of
        (r, s') \<Rightarrow> (r, \<lparr>db = s', exchanges = exchanges w @ [(q, r)]\<rparr>))"

text \<open>The queries issued since \<open>w\<close>, read off the log of \<open>w'\<close>.\<close>

definition issued :: "'s world \<Rightarrow> 's world \<Rightarrow> query list" where
  "issued w w' = map fst (drop (length (exchanges w)) (exchanges w'))"

definition answered :: "'s world \<Rightarrow> 's world \<Rightarrow> (query \<times> response) list" where
  "answered w w' = drop (length (exchanges w)) (exchanges w')"

text \<open>A thrown error is \<open>Inl\<close>, a returned value \<open>Inr\<close>.\<close>

definition get :: "'s repository \<Rightarrow> jsval \<Rightarrow> 's world \<Rightarrow> (client_error + data) \<times> 's world" where
  "get repo ident w =
     (case await repo [From (tableName repo), Select None None False, Eq ''id'' ident, Single] w of
        (r, w') \<Rightarrow>
          (case resp_error r of
             Some e \<Rightarrow> (Inl e, w')
           | None \<Rightarrow> (Inr (resp_data r), w')))"

text \<open>\<open>Array.isArray(orderBy) ? orderBy : [orderBy]\<close>\<close>

definition orderByArray :: "OrderBySpec \<Rightarrow> OrderBy list" where
  "orderByArray ob = (case ob of OrderArray os \<Rightarrow> os | OneOrder order \<Rightarrow> [order])"

text \<open>\<open>query.order(order.column, { ascending: order.ascending ?? true })\<close>\<close>

definition order_by :: "query \<Rightarrow> OrderBy \<Rightarrow> query" where
  "order_by q order =
     q @ [Order (column order) (case ascending order of Some a \<Rightarrow> a | None \<Rightarrow> True)]"

definition find_rows ::
  "'s repository \<Rightarrow> FindOptions \<Rightarrow> 's world \<Rightarrow> (client_error + data) \<times> 's world" where
  "find_rows repo options w =
     (let query = [From (tableName repo), Select None None False];
          query = (case filter_fn options of Some f \<Rightarrow> f query | None \<Rightarrow> query);
          query = (case orderBy options of
                     Some ob \<Rightarrow> foldl order_by query (orderByArray ob)
                   | None \<Rightarrow> query)
      in case await repo query w of
           (r, w') \<Rightarrow>
             (case resp_error r of
                Some e \<Rightarrow> (Inl e, w')
              | None \<Rightarrow> (Inr (resp_data r), w')))"

definition getTotalCount ::
  "'s repository \<Rightarrow> FilterFunction option \<Rightarrow> 's world \<Rightarrow> (client_error + int) \<times> 's world" where
  "getTotalCount repo filter_f w =
     (let countQuery = [From (tableName repo), Select (Some ''*'') (Some ''exact'') True];
          countQuery = (case filter_f of Some f \<Rightarrow> f countQuery | None \<Rightarrow> countQuery)
      in case await repo countQuery w of
           (r, w') \<Rightarrow>
             (case resp_error r of
                Some countError \<Rightarrow> (Inl countError, w')
              | None \<Rightarrow> (Inr (case resp_count r of Some n \<Rightarrow> n | None \<Rightarrow> 0), w')))"

definition applyOrderBy :: "query \<Rightarrow> OrderBySpec option \<Rightarrow> query" where
  "applyOrderBy query orderBy_o =
     (case orderBy_o of
        None \<Rightarrow> query
      | Some ob \<Rightarrow> foldl order_by query (orderByArray ob))"

definition getPaginatedData ::
  "'s repository \<Rightarrow> int \<Rightarrow> int \<Rightarrow> FilterFunction option \<Rightarrow> OrderBySpec option \<Rightarrow> 's world
     \<Rightarrow> (client_error + data) \<times> 's world" where
  "getPaginatedData repo offset pageSize_n filter_f orderBy_o w =
     (let dataQuery = [From (tableName repo), Select None None False,
                       Range offset (offset + pageSize_n - 1)];
          dataQuery = (case filter_f of Some f \<Rightarrow> f dataQuery | None \<Rightarrow> dataQuery);
          dataQuery = applyOrderBy dataQuery orderBy_o
      in case await repo dataQuery w of
           (r, w') \<Rightarrow>
             (case resp_error r of
                Some e \<Rightarrow> (Inl e, w')
              | None \<Rightarrow> (Inr (resp_data r), w')))"

definition findPaginated ::
  "'s repository \<Rightarrow> FindPaginatedOptions \<Rightarrow> 's world
     \<Rightarrow> (client_error + PaginatedResult) \<times> 's world" where
  "findPaginated repo options w =
     (let offset = (page options - 1) * pageSize options
      in case getTotalCount repo (filter_fn options) w of
           (Inl e, w1) \<Rightarrow> (Inl e, w1)
         | (Inr totalCount_n, w1) \<Rightarrow>
             (let totalPages_n = Math_ceil (js_div totalCount_n (pageSize options))
              in case getPaginatedData repo offset (pageSize options) (filter_fn options)
                        (orderBy options) w1 of
                   (Inl e, w2) \<Rightarrow> (Inl e, w2)
                 | (Inr items_d, w2) \<Rightarrow>
                     (Inr \<lparr>items = items_d,
                           pagination = \<lparr>pg_page = page options,
                                         pg_pageSize = pageSize options,
                                         totalCount = totalCount_n,
                                         totalPages = totalPages_n\<rparr>\<rparr>, w2)))"

definition create :: "'s repository \<Rightarrow> row \<Rightarrow> 's world \<Rightarrow> (client_error + data) \<times> 's world" where
  "create repo data_in w =
     (case await repo [From (tableName repo), Insert (Object data_in),
                       Select None None False, Single] w of
        (r, w') \<Rightarrow>
          (case resp_error r of
             Some e \<Rightarrow> (Inl e, w')
           | None \<Rightarrow> (Inr (resp_data r), w')))"

definition update ::
  "'s repository \<Rightarrow> jsval \<Rightarrow> row \<Rightarrow> 's world \<Rightarrow> (client_error + data) \<times> 's world" where
  "update repo ident data_in w =
     (case await repo [From (tableName repo), Update data_in, Eq ''id'' ident,
                       Select None None False, Single] w of
        (r, w') \<Rightarrow>
          (case resp_error r of
             Some e \<Rightarrow> (Inl e, w')
           | None \<Rightarrow> (Inr (resp_data r), w')))"

definition delete :: "'s repository \<Rightarrow> jsval \<Rightarrow> 's world \<Rightarrow> (client_error + unit) \<times> 's world" where
  "delete repo ident w =
     (case await repo [From (tableName repo), Delete, Eq ''id'' ident] w of
        (r, w') \<Rightarrow>
          (case resp_error r of
             Some e \<Rightarrow> (Inl e, w')
           | None \<Rightarrow> (Inr (), w')))"

text \<open>\<open>Array.prototype.join(separator)\<close> on an array of strings.\<close>

fun join :: "string list \<Rightarrow> string \<Rightarrow> string" where
  "join [] sep = []"
| "join [x] sep = x"
| "join (x # y # ys) sep = x @ sep @ join (y # ys) sep"

definition upsert ::
  "'s repository \<Rightarrow> row \<Rightarrow> string list \<Rightarrow> 's world \<Rightarrow> (client_error + data) \<times> 's world" where
  "upsert repo data_in conflictColumns w =
     (case await repo [From (tableName repo), Upsert data_in (join conflictColumns '',''),
                       Select None None False, Single] w of
        (r, w') \<Rightarrow>
          (case resp_error r of
             Some e \<Rightarrow> (Inl e, w')
           | None \<Rightarrow> (Inr (resp_data r), w')))"

definition exists ::
  "'s repository \<Rightarrow> FilterFunction \<Rightarrow> 's world \<Rightarrow> (client_error + bool) \<times> 's world" where
  "exists repo filter_f w =
     (let query = [From (tableName repo), Select (Some ''id'') (Some ''exact'') True];
          query = filter_f query
      in case await repo query w of
           (r, w') \<Rightarrow>
             (case resp_error r of
                Some e \<Rightarrow> (Inl e, w')
              | None \<Rightarrow> (Inr (0 < (case resp_count r of Some n \<Rightarrow> n | None \<Rightarrow> 0)), w')))"

definition count ::
  "'s repository \<Rightarrow> FilterFunction option \<Rightarrow> 's world \<Rightarrow> (client_error + int) \<times> 's world" where
  "count repo filter_f w =
     (let query = [From (tableName repo), Select (Some ''*'') (Some ''exact'') True];
          query = (case filter_f of Some f \<Rightarrow> f query | None \<Rightarrow> query)
      in case await repo query w of
           (r, w') \<Rightarrow>
             (case resp_error r of
                Some e \<Rightarrow> (Inl e, w')
              | None \<Rightarrow> (Inr (case resp_count r of Some n \<Rightarrow> n | None \<Rightarrow> 0), w')))"

definition createMany ::
  "'s repository \<Rightarrow> row list \<Rightarrow> 's world \<Rightarrow> (client_error + data) \<times> 's world" where
  "createMany repo records w =
     (case await repo [From (tableName repo), Insert (Array records), Select None None False] w of
        (r, w') \<Rightarrow>
          (case resp_error r of
             Some e \<Rightarrow> (Inl e, w')
           | None \<Rightarrow> (Inr (resp_data r), w')))"

text \<open>
  The \<open>for (const record of records)\<close> loop of \<open>updateMany\<close>, with the array
  \<open>results\<close> it pushes to. A throw inside the loop leaves the method at once.
\<close>

fun updateMany_loop ::
  "'s repository \<Rightarrow> row list \<Rightarrow> data list \<Rightarrow> 's world \<Rightarrow> (client_error + data list) \<times> 's world" where
  "updateMany_loop repo [] results w = (Inr results, w)"
| "updateMany_loop repo (record # records) results w =
     (let ident = get_prop record ''id'';
          updateData = rest_without ''id'' record
      in case update repo ident updateData w of
           (Inl e, w') \<Rightarrow> (Inl e, w')
         | (Inr updatedRecord, w') \<Rightarrow> updateMany_loop repo records (results @ [updatedRecord]) w')"

definition updateMany ::
  "'s repository \<Rightarrow> row list \<Rightarrow> 's world \<Rightarrow> (client_error + data list) \<times> 's world" where
  "updateMany repo records w = updateMany_loop repo records [] w"

definition deleteMany ::
  "'s repository \<Rightarrow> jsval list \<Rightarrow> 's world \<Rightarrow> (client_error + unit) \<times> 's world" where
  "deleteMany repo ids w =
     (case await repo [From (tableName repo), Delete, In ''id'' ids] w of
        (r, w') \<Rightarrow>
          (case resp_error r of
             Some e \<Rightarrow> (Inl e, w')
           | None \<Rightarrow> (Inr (), w')))"

section \<open>Notions the properties are stated with\<close>

text \<open>
  The client answering a list of queries one at a time: each query is answered in
  the database state the previous answer left behind. The result is the list of
  exchanges and the final state.
\<close>

fun serve :: "'s client \<Rightarrow> query list \<Rightarrow> 's \<Rightarrow> (query \<times> response) list \<times> 's" where
  "serve c [] s = ([], s)"
| "serve c (q # qs) s =
     (case c q s of
        (r, s') \<Rightarrow> (case serve c qs s' of (xs, s'') \<Rightarrow> ((q, r) # xs, s'')))"

text \<open>The chain \<open>updateMany\<close> has \<open>update\<close> build for one record.\<close>

definition update_query :: "'s repository \<Rightarrow> row \<Rightarrow> query" where
  "update_query repo record =
     [From (tableName repo), Update (rest_without ''id'' record),
      Eq ''id'' (get_prop record ''id''), Select None None False, Single]"

text \<open>
  The chain \<open>find\<close> builds, the chain \<open>getTotalCount\<close> and \<open>count\<close>
  build, and the chain \<open>getPaginatedData\<close> builds.
\<close>

definition findQuery_of :: "'s repository \<Rightarrow> FindOptions \<Rightarrow> query" where
  "findQuery_of repo options =
     (let query = [From (tableName repo), Select None None False];
          query = (case filter_fn options of Some f \<Rightarrow> f query | None \<Rightarrow> query)
      in case orderBy options of
           Some ob \<Rightarrow> foldl order_by query (orderByArray ob)
         | None \<Rightarrow> query)"

definition countQuery_of :: "'s repository \<Rightarrow> FilterFunction option \<Rightarrow> query" where
  "countQuery_of repo filter_f =
     (case filter_f of
        Some f \<Rightarrow> f [From (tableName repo), Select (Some ''*'') (Some ''exact'') True]
      | None \<Rightarrow> [From (tableName repo), Select (Some ''*'') (Some ''exact'') True])"

definition dataQuery_of ::
  "'s repository \<Rightarrow> int \<Rightarrow> int \<Rightarrow> FilterFunction option \<Rightarrow> OrderBySpec option \<Rightarrow> query" where
  "dataQuery_of repo offset pageSize_n filter_f orderBy_o =
     applyOrderBy
       (case filter_f of
          Some f \<Rightarrow> f [From (tableName repo), Select None None False,
                       Range offset (offset + pageSize_n - 1)]
        | None \<Rightarrow> [From (tableName repo), Select None None False,
                     Range offset (offset + pageSize_n - 1)])
       orderBy_o"

text \<open>
  The range in force on a chain: that of its last \<open>range(from, to)\<close> call (a later
  call replaces an earlier one). A response honours the range of its query when it
  carries no more rows than the inclusive range \<open>from..to\<close> spans.
\<close>

fun range_of :: "query \<Rightarrow> (int \<times> int) option" where
  "range_of [] = None"
| "range_of (c # cs) =
     (case range_of cs of
        Some ft \<Rightarrow> Some ft
      | None \<Rightarrow> (case c of Range a b \<Rightarrow> Some (a, b) | _ \<Rightarrow> None))"


text \<open>
  One constructor per public method, and a dispatcher, to speak about all public
  methods at once.
\<close>

datatype repo_call =
    CallGet jsval
  | CallFind FindOptions
  | CallFindPaginated FindPaginatedOptions
  | CallCreate row
  | CallCreateMany "row list"
  | CallUpdate jsval row
  | CallUpdateMany "row list"
  | CallDelete jsval
  | CallDeleteMany "jsval list"
  | CallUpsert row "string list"
  | CallExists FilterFunction
  | CallCount "FilterFunction option"

datatype returned =
    RData data
  | RPage PaginatedResult
  | RList "data list"
  | RBool bool
  | RNumber int
  | RVoid

definition returning :: "('a \<Rightarrow> returned) \<Rightarrow> (client_error + 'a) \<times> 's world
    \<Rightarrow> (client_error + returned) \<times> 's world" where
  "returning f out = (case out of (Inl e, w') \<Rightarrow> (Inl e, w') | (Inr v, w') \<Rightarrow> (Inr (f v), w'))"

definition invoke ::
  "'s repository \<Rightarrow> repo_call \<Rightarrow> 's world \<Rightarrow> (client_error + returned) \<times> 's world" where
  "invoke repo c w =
     (case c of
        CallGet ident \<Rightarrow> returning RData (get repo ident w)
      | CallFind options \<Rightarrow> returning RData (find_rows repo options w)
      | CallFindPaginated options \<Rightarrow> returning RPage (findPaginated repo options w)
      | CallCreate d \<Rightarrow> returning RData (create repo d w)
      | CallCreateMany records \<Rightarrow> returning RData (createMany repo records w)
      | CallUpdate ident d \<Rightarrow> returning RData (update repo ident d w)
      | CallUpdateMany records \<Rightarrow> returning RList (updateMany repo records w)
      | CallDelete ident \<Rightarrow> returning (\<lambda>_. RVoid) (delete repo ident w)
      | CallDeleteMany ids \<Rightarrow> returning (\<lambda>_. RVoid) (deleteMany repo ids w)
      | CallUpsert d conflictColumns \<Rightarrow> returning RData (upsert repo d conflictColumns w)
      | CallExists f \<Rightarrow> returning RBool (exists repo f w)
      | CallCount f \<Rightarrow> returning RNumber (count repo f w))"

text \<open>
  A client for concrete runs: its state is the list of responses still to give, and
  each awaited query takes the next one (an empty success once the list is used up).
\<close>

definition scripted :: "response list client" where
  "scripted q s =
     (case s of
        [] \<Rightarrow> (\<lparr>resp_data = DNull, resp_error = None, resp_count = None\<rparr>, [])
      | r # rs \<Rightarrow> (r, rs))"

definition success :: "data \<Rightarrow> int option \<Rightarrow> response" where
  "success d c = \<lparr>resp_data = d, resp_error = None, resp_count = c\<rparr>"

definition failure :: "client_error \<Rightarrow> response" where
  "failure e = \<lparr>resp_data = DNull, resp_error = Some e, resp_count = None\<rparr>"

text \<open>A repository on the table \<open>users\<close> over the scripted client, and a fresh world.\<close>

definition users_repo :: "response list repository" where
  "users_repo = \<lparr>tableName = ''users'', client = scripted\<rparr>"

definition fresh :: "'s \<Rightarrow> 's world" where
  "fresh s = \<lparr>db = s, exchanges = []\<rparr>"

text \<open>Rows of the table \<open>users\<close>.\<close>

definition john :: row where
  "john = [(''id'', Str ''1''), (''name'', Str ''John Doe''), (''email'', Str ''john@example.com''),
           (''age'', Num 30)]"

definition jane :: row where
  "jane = [(''id'', Str ''2''), (''name'', Str ''Jane Smith''), (''email'', Str ''jane@example.com''),
           (''age'', Num 25)]"

definition bob :: row where
  "bob = [(''id'', Str ''3''), (''name'', Str ''Bob Johnson''), (''email'', Str ''bob@example.com''),
          (''age'', Num 35)]"

section \<open>Auxiliary facts\<close>

subsection \<open>Awaiting one query\<close>

lemma await_run:
  "await repo q w = (r, w') \<longleftrightarrow>
     (\<exists>s'. client repo q (db w) = (r, s') \<and> w' = \<lparr>db = s', exchanges = exchanges w @ [(q, r)]\<rparr>)"
  by (auto simp: await_def split: prod.splits)

lemma await_answered: "await repo q w = (r, w') \<Longrightarrow> answered w w' = [(q, r)]"
  by (auto simp: await_run answered_def)

lemma answered_step:
  "await repo q w = (r, w1) \<Longrightarrow> exchanges w' = exchanges w1 @ ys \<Longrightarrow>
     answered w w' = (q, r) # ys \<and> answered w1 w' = ys"
  by (auto simp: await_run answered_def)


lemma out_eq: "f = (fst f, snd f)" by simp

subsection \<open>Methods that await a single query\<close>

lemma get_run:
  "get repo ident w = (res, w') \<Longrightarrow>
     \<exists>r. await repo [From (tableName repo), Select None None False, Eq ''id'' ident, Single] w = (r, w')
       \<and> res = (case resp_error r of Some e \<Rightarrow> Inl e | None \<Rightarrow> Inr (resp_data r))"
  by (auto simp: get_def split: prod.splits option.splits)

lemma find_rows_run:
  "find_rows repo options w = (res, w') \<Longrightarrow>
     \<exists>r. await repo (findQuery_of repo options) w = (r, w')
       \<and> res = (case resp_error r of Some e \<Rightarrow> Inl e | None \<Rightarrow> Inr (resp_data r))"
  by (auto simp: find_rows_def findQuery_of_def Let_def split: prod.splits option.splits)

lemma create_run:
  "create repo d w = (res, w') \<Longrightarrow>
     \<exists>r. await repo [From (tableName repo), Insert (Object d), Select None None False, Single] w = (r, w')
       \<and> res = (case resp_error r of Some e \<Rightarrow> Inl e | None \<Rightarrow> Inr (resp_data r))"
  by (auto simp: create_def split: prod.splits option.splits)

lemma createMany_run:
  "createMany repo records w = (res, w') \<Longrightarrow>
     \<exists>r. await repo [From (tableName repo), Insert (Array records), Select None None False] w = (r, w')
       \<and> res = (case resp_error r of Some e \<Rightarrow> Inl e | None \<Rightarrow> Inr (resp_data r))"
  by (auto simp: createMany_def split: prod.splits option.splits)

lemma update_run:
  "update repo ident d w = (res, w') \<Longrightarrow>
     \<exists>r. await repo [From (tableName repo), Update d, Eq ''id'' ident, Select None None False, Single] w = (r, w')
       \<and> res = (case resp_error r of Some e \<Rightarrow> Inl e | None \<Rightarrow> Inr (resp_data r))"
  by (auto simp: update_def split: prod.splits option.splits)

lemma delete_run:
  "delete repo ident w = (res, w') \<Longrightarrow>
     \<exists>r. await repo [From (tableName repo), Delete, Eq ''id'' ident] w = (r, w')
       \<and> res = (case resp_error r of Some e \<Rightarrow> Inl e | None \<Rightarrow> Inr ())"
  by (auto simp: delete_def split: prod.splits option.splits)

lemma deleteMany_run:
  "deleteMany repo ids w = (res, w') \<Longrightarrow>
     \<exists>r. await repo [From (tableName repo), Delete, In ''id'' ids] w = (r, w')
       \<and> res = (case resp_error r of Some e \<Rightarrow> Inl e | None \<Rightarrow> Inr ())"
  by (auto simp: deleteMany_def split: prod.splits option.splits)

lemma upsert_run:
  "upsert repo d cols w = (res, w') \<Longrightarrow>
     \<exists>r. await repo [From (tableName repo), Upsert d (join cols '',''), Select None None False, Single] w = (r, w')
       \<and> res = (case resp_error r of Some e \<Rightarrow> Inl e | None \<Rightarrow> Inr (resp_data r))"
  by (auto simp: upsert_def split: prod.splits option.splits)

lemma exists_run:
  "exists repo f w = (res, w') \<Longrightarrow>
     \<exists>r. await repo (f [From (tableName repo), Select (Some ''id'') (Some ''exact'') True]) w = (r, w')
       \<and> res = (case resp_error r of Some e \<Rightarrow> Inl e
                 | None \<Rightarrow> Inr (0 < (case resp_count r of Some n \<Rightarrow> n | None \<Rightarrow> 0)))"
  by (auto simp: exists_def Let_def split: prod.splits option.splits)

lemma count_run:
  "count repo f w = (res, w') \<Longrightarrow>
     \<exists>r. await repo (countQuery_of repo f) w = (r, w')
       \<and> res = (case resp_error r of Some e \<Rightarrow> Inl e
                 | None \<Rightarrow> Inr (case resp_count r of Some n \<Rightarrow> n | None \<Rightarrow> 0))"
  by (auto simp: count_def countQuery_of_def Let_def split: prod.splits option.splits)

lemma getTotalCount_run:
  "getTotalCount repo f w = (res, w') \<Longrightarrow>
     \<exists>r. await repo (countQuery_of repo f) w = (r, w')
       \<and> res = (case resp_error r of Some e \<Rightarrow> Inl e
                 | None \<Rightarrow> Inr (case resp_count r of Some n \<Rightarrow> n | None \<Rightarrow> 0))"
  by (auto simp: getTotalCount_def countQuery_of_def Let_def split: prod.splits option.splits)

lemma getPaginatedData_run:
  "getPaginatedData repo off n f ob w = (res, w') \<Longrightarrow>
     \<exists>r. await repo (dataQuery_of repo off n f ob) w = (r, w')
       \<and> res = (case resp_error r of Some e \<Rightarrow> Inl e | None \<Rightarrow> Inr (resp_data r))"
  by (auto simp: getPaginatedData_def dataQuery_of_def Let_def split: prod.splits option.splits)

text \<open>What \<open>get\<close> makes of the response to its lookup.\<close>

lemma get_outcome:
  assumes "get repo ident w = (res, w')"
  shows "\<exists>r. answered w w' = [([From (tableName repo), Select None None False, Eq ''id'' ident, Single], r)] \<and>
             (\<forall>e. resp_error r = Some e \<longrightarrow> res = Inl e) \<and>
             (resp_error r = None \<longrightarrow> res = Inr (resp_data r))"
  using get_run[OF assms] by (auto dest!: await_answered)

subsection \<open>The two queries of findPaginated\<close>

lemma findPaginated_run:
  assumes "findPaginated repo opts w = (res, w')"
  shows "\<exists>c1 w1. getTotalCount repo (filter_fn opts) w = (c1, w1) \<and>
           (case c1 of
              Inl e \<Rightarrow> res = Inl e \<and> w' = w1
            | Inr n \<Rightarrow>
                (\<exists>d2. getPaginatedData repo ((page opts - 1) * pageSize opts) (pageSize opts)
                         (filter_fn opts) (orderBy opts) w1 = (d2, w') \<and>
                   (case d2 of
                      Inl e \<Rightarrow> res = Inl e
                    | Inr d \<Rightarrow> res = Inr \<lparr>items = d,
                          pagination = \<lparr>pg_page = page opts, pg_pageSize = pageSize opts,
                             totalCount = n, totalPages = Math_ceil (js_div n (pageSize opts))\<rparr>\<rparr>)))"
  using assms by (auto simp: findPaginated_def Let_def split: prod.splits sum.splits)

text \<open>
  Either the count query fails and is the only exchange, or both queries are
  awaited and the outcome is read off the two responses.
\<close>

lemma findPaginated_answers:
  assumes "findPaginated repo opts w = (res, w')"
  defines "q1 \<equiv> countQuery_of repo (filter_fn opts)"
      and "q2 \<equiv> dataQuery_of repo ((page opts - 1) * pageSize opts) (pageSize opts)
                    (filter_fn opts) (orderBy opts)"
  shows "(\<exists>r1 e. answered w w' = [(q1, r1)] \<and> resp_error r1 = Some e \<and> res = Inl e) \<or>
         (\<exists>r1 r2. answered w w' = [(q1, r1), (q2, r2)] \<and> resp_error r1 = None \<and>
            res = (case resp_error r2 of
                     Some e \<Rightarrow> Inl e
                   | None \<Rightarrow> Inr \<lparr>items = resp_data r2,
                        pagination = \<lparr>pg_page = page opts, pg_pageSize = pageSize opts,
                           totalCount = (case resp_count r1 of Some n \<Rightarrow> n | None \<Rightarrow> 0),
                           totalPages = Math_ceil (js_div (case resp_count r1 of Some n \<Rightarrow> n | None \<Rightarrow> 0)
                                          (pageSize opts))\<rparr>\<rparr>))"
proof -
  from findPaginated_run[OF assms(1)] obtain c1 w1 where
    tc: "getTotalCount repo (filter_fn opts) w = (c1, w1)" and
    rest: "case c1 of Inl e \<Rightarrow> res = Inl e \<and> w' = w1
            | Inr n \<Rightarrow> (\<exists>d2. getPaginatedData repo ((page opts - 1) * pageSize opts) (pageSize opts)
                         (filter_fn opts) (orderBy opts) w1 = (d2, w') \<and>
                   (case d2 of
                      Inl e \<Rightarrow> res = Inl e
                    | Inr d \<Rightarrow> res = Inr \<lparr>items = d,
                          pagination = \<lparr>pg_page = page opts, pg_pageSize = pageSize opts,
                             totalCount = n, totalPages = Math_ceil (js_div n (pageSize opts))\<rparr>\<rparr>))"
    by blast
  from getTotalCount_run[OF tc] obtain r1 where
    a1: "await repo q1 w = (r1, w1)"
    and c1: "c1 = (case resp_error r1 of Some e \<Rightarrow> Inl e
                 | None \<Rightarrow> Inr (case resp_count r1 of Some n \<Rightarrow> n | None \<Rightarrow> 0))"
    unfolding q1_def by blast
  show ?thesis
  proof (cases "resp_error r1")
    case (Some e)
    with c1 rest have "res = Inl e" "w' = w1" by simp_all
    with a1 Some show ?thesis by (auto dest: await_answered)
  next
    case None
    with c1 rest obtain d2 where
      pd: "getPaginatedData repo ((page opts - 1) * pageSize opts) (pageSize opts)
                         (filter_fn opts) (orderBy opts) w1 = (d2, w')"
      and res: "case d2 of
                      Inl e \<Rightarrow> res = Inl e
                    | Inr d \<Rightarrow> res = Inr \<lparr>items = d,
                          pagination = \<lparr>pg_page = page opts, pg_pageSize = pageSize opts,
                             totalCount = (case resp_count r1 of Some n \<Rightarrow> n | None \<Rightarrow> 0),
                             totalPages = Math_ceil (js_div (case resp_count r1 of Some n \<Rightarrow> n | None \<Rightarrow> 0) (pageSize opts))\<rparr>\<rparr>"
      by auto
    from getPaginatedData_run[OF pd] obtain r2 where
      a2: "await repo q2 w1 = (r2, w')"
      and d2: "d2 = (case resp_error r2 of Some e \<Rightarrow> Inl e | None \<Rightarrow> Inr (resp_data r2))"
      unfolding q2_def by blast
    from a2 have "exchanges w' = exchanges w1 @ [(q2, r2)]" by (auto simp: await_run)
    with a1 have l2: "answered w w' = [(q1, r1), (q2, r2)]" by (simp add: answered_step)
    from res d2 have "res = (case resp_error r2 of
                     Some e \<Rightarrow> Inl e
                   | None \<Rightarrow> Inr \<lparr>items = resp_data r2,
                        pagination = \<lparr>pg_page = page opts, pg_pageSize = pageSize opts,
                           totalCount = (case resp_count r1 of Some n \<Rightarrow> n | None \<Rightarrow> 0),
                           totalPages = Math_ceil (js_div (case resp_count r1 of Some n \<Rightarrow> n | None \<Rightarrow> 0) (pageSize opts))\<rparr>\<rparr>)"
      by (auto split: option.splits)
    with l2 None show ?thesis by blast
  qed
qed

subsection \<open>Ceiling of a quotient\<close>


lemma Math_ceil_js_div_int:
  "b \<noteq> 0 \<Longrightarrow> Math_ceil (js_div a b) = Fin (of_int (- (- a div b)))"
  by (simp add: Math_ceil_def js_div_def ceiling_divide_eq_div)


subsection \<open>Ranges\<close>

lemma range_of_append_order [simp]: "range_of (q @ [Order c a]) = range_of q"
  by (induction q) (auto split: option.splits)

lemma range_of_append_other [simp]: "range_of (q @ [Other m c vs]) = range_of q"
  by (induction q) (auto split: option.splits)

lemma range_of_order_by [simp]: "range_of (order_by q order) = range_of q"
  by (simp add: order_by_def)

lemma range_of_foldl_order_by [simp]: "range_of (foldl order_by q os) = range_of q"
  by (induction os arbitrary: q) simp_all

lemma range_of_applyOrderBy [simp]: "range_of (applyOrderBy q ob) = range_of q"
  by (simp add: applyOrderBy_def split: option.splits)


subsection \<open>The loop of updateMany\<close>

lemma loop_step:
  assumes "client repo (update_query repo record) (db w) = (r, s1)"
  shows "updateMany_loop repo (record # records) results w =
           (case resp_error r of
              Some e \<Rightarrow> (Inl e, \<lparr>db = s1, exchanges = exchanges w @ [(update_query repo record, r)]\<rparr>)
            | None \<Rightarrow> updateMany_loop repo records (results @ [resp_data r])
                        \<lparr>db = s1, exchanges = exchanges w @ [(update_query repo record, r)]\<rparr>)"
  using assms
  by (simp add: update_def update_query_def await_def Let_def split: option.splits)

lemma loop_all_succeed:
  "serve (client repo) (map (update_query repo) records) (db w) = (xs, s') \<Longrightarrow>
   \<forall>(q, r) \<in> set xs. resp_error r = None \<Longrightarrow>
   updateMany_loop repo records results w =
     (Inr (results @ map (resp_data \<circ> snd) xs), \<lparr>db = s', exchanges = exchanges w @ xs\<rparr>)"
proof (induction records arbitrary: results w xs s')
  case Nil
  then show ?case by simp
next
  case (Cons rcd records)
  obtain r s1 where c: "client repo (update_query repo rcd) (db w) = (r, s1)"
    by fastforce
  obtain ys s2 where s: "serve (client repo) (map (update_query repo) records) s1 = (ys, s2)"
    by fastforce
  from Cons.prems(1) c s have xs: "xs = (update_query repo rcd, r) # ys" and s': "s' = s2"
    by simp_all
  from xs Cons.prems(2) have ok: "resp_error r = None" and oks: "\<forall>(q, r) \<in> set ys. resp_error r = None"
    by simp_all
  let ?w1 = "\<lparr>db = s1, exchanges = exchanges w @ [(update_query repo rcd, r)]\<rparr>"
  from s have "serve (client repo) (map (update_query repo) records) (db ?w1) = (ys, s2)" by simp
  from Cons.IH[OF this oks, of "results @ [resp_data r]"] loop_step[OF c, of records results] ok xs s'
  show ?case by simp
qed

lemma loop_first_failure:
  "k < length records \<Longrightarrow>
   serve (client repo) (map (update_query repo) (take (Suc k) records)) (db w) = (xs, s') \<Longrightarrow>
   \<forall>j < k. resp_error (snd (xs ! j)) = None \<Longrightarrow>
   resp_error (snd (xs ! k)) = Some e \<Longrightarrow>
   updateMany_loop repo records results w = (Inl e, \<lparr>db = s', exchanges = exchanges w @ xs\<rparr>)"
proof (induction records arbitrary: k results w xs s')
  case Nil
  then show ?case by simp
next
  case (Cons rcd records)
  obtain r s1 where c: "client repo (update_query repo rcd) (db w) = (r, s1)"
    by fastforce
  let ?w1 = "\<lparr>db = s1, exchanges = exchanges w @ [(update_query repo rcd, r)]\<rparr>"
  show ?case
  proof (cases k)
    case 0
    with Cons.prems(2) c have xs: "xs = [(update_query repo rcd, r)]" and s': "s' = s1"
      by simp_all
    with Cons.prems(4) 0 have "resp_error r = Some e" by simp
    with loop_step[OF c, of records results] xs s' show ?thesis by simp
  next
    case (Suc k')
    obtain ys s2 where s: "serve (client repo) (map (update_query repo) (take (Suc k') records)) s1 = (ys, s2)"
      by fastforce
    from Cons.prems(2) Suc c s have xs: "xs = (update_query repo rcd, r) # ys" and s': "s' = s2"
      by simp_all
    from Cons.prems(3) Suc xs have ok: "resp_error r = None" by fastforce
    from Cons.prems(3) Suc xs have oks: "\<forall>j < k'. resp_error (snd (ys ! j)) = None" by fastforce
    from Cons.prems(4) Suc xs have bad: "resp_error (snd (ys ! k')) = Some e" by simp
    from Cons.prems(1) Suc have k': "k' < length records" by simp
    from s have "serve (client repo) (map (update_query repo) (take (Suc k') records)) (db ?w1) = (ys, s2)"
      by simp
    from Cons.IH[OF k' this oks bad, of "results @ [resp_data r]"] loop_step[OF c, of records results] ok xs s'
    show ?thesis by simp
  qed
qed

text \<open>Whatever happens, the log grows by update chains of the records, in order.\<close>

lemma loop_log:
  "updateMany_loop repo records results w = (res, w') \<Longrightarrow>
   \<exists>ys. exchanges w' = exchanges w @ ys \<and> length ys \<le> length records \<and>
        map fst ys = map (update_query repo) (take (length ys) records) \<and>
        (\<forall>q r e. (q, r) \<in> set ys \<and> resp_error r = Some e \<longrightarrow> res = Inl e \<and> last ys = (q, r))"
proof (induction records arbitrary: results w)
  case Nil
  then show ?case by simp
next
  case (Cons rcd records)
  obtain r s1 where c: "client repo (update_query repo rcd) (db w) = (r, s1)"
    by fastforce
  let ?x = "(update_query repo rcd, r)"
  let ?w1 = "\<lparr>db = s1, exchanges = exchanges w @ [?x]\<rparr>"
  show ?case
  proof (cases "resp_error r")
    case (Some e)
    with loop_step[OF c, of records results] Cons.prems
    have "res = Inl e" "w' = ?w1" by simp_all
    with Some show ?thesis by (intro exI[of _ "[?x]"]) simp
  next
    case None
    with loop_step[OF c, of records results] Cons.prems
    have "updateMany_loop repo records (results @ [resp_data r]) ?w1 = (res, w')" by simp
    from Cons.IH[OF this] obtain ys where
      ys: "exchanges w' = exchanges ?w1 @ ys" "length ys \<le> length records"
          "map fst ys = map (update_query repo) (take (length ys) records)"
          "\<forall>q r e. (q, r) \<in> set ys \<and> resp_error r = Some e \<longrightarrow> res = Inl e \<and> last ys = (q, r)"
      by blast
    have "\<forall>q r' e. (q, r') \<in> set (?x # ys) \<and> resp_error r' = Some e \<longrightarrow>
            res = Inl e \<and> last (?x # ys) = (q, r')"
      using ys(4) None by auto
    with ys(1-3) show ?thesis by (intro exI[of _ "?x # ys"]) simp
  qed
qed

lemma rest_without_keys: "k \<notin> fst ` set (rest_without k obj)"
  by (auto simp: rest_without_def)

lemma rest_without_lookup: "k' \<noteq> k \<Longrightarrow> map_of (rest_without k obj) k' = map_of obj k'"
  by (induction obj) (auto simp: rest_without_def)

lemma serve_update_queries:
  "serve c (map f rs) s = (xs, s') \<Longrightarrow> length xs = length rs \<and> map fst xs = map f rs"
  by (induction rs arbitrary: xs s) (auto split: prod.splits)

subsection \<open>Errors, method by method\<close>

lemma get_error:
  "get repo ident w = (res, w') \<Longrightarrow> (q, r) \<in> set (answered w w') \<Longrightarrow> resp_error r = Some e \<Longrightarrow>
     res = Inl e \<and> last (answered w w') = (q, r)"
  by (auto dest!: get_run await_answered)

lemma find_rows_error:
  "find_rows repo options w = (res, w') \<Longrightarrow> (q, r) \<in> set (answered w w') \<Longrightarrow> resp_error r = Some e \<Longrightarrow>
     res = Inl e \<and> last (answered w w') = (q, r)"
  by (auto dest!: find_rows_run await_answered)

lemma findPaginated_error:
  assumes "findPaginated repo opts w = (res, w')"
      and "(q, r) \<in> set (answered w w')" and "resp_error r = Some e"
  shows "res = Inl e \<and> last (answered w w') = (q, r)"
  using findPaginated_answers[OF assms(1)] assms(2,3) by auto

lemma create_error:
  "create repo d w = (res, w') \<Longrightarrow> (q, r) \<in> set (answered w w') \<Longrightarrow> resp_error r = Some e \<Longrightarrow>
     res = Inl e \<and> last (answered w w') = (q, r)"
  by (auto dest!: create_run await_answered)

lemma createMany_error:
  "createMany repo records w = (res, w') \<Longrightarrow> (q, r) \<in> set (answered w w') \<Longrightarrow> resp_error r = Some e \<Longrightarrow>
     res = Inl e \<and> last (answered w w') = (q, r)"
  by (auto dest!: createMany_run await_answered)

lemma update_error:
  "update repo ident d w = (res, w') \<Longrightarrow> (q, r) \<in> set (answered w w') \<Longrightarrow> resp_error r = Some e \<Longrightarrow>
     res = Inl e \<and> last (answered w w') = (q, r)"
  by (auto dest!: update_run await_answered)

lemma updateMany_error:
  assumes "updateMany repo records w = (res, w')"
      and "(q, r) \<in> set (answered w w')" and "resp_error r = Some e"
  shows "res = Inl e \<and> last (answered w w') = (q, r)"
proof -
  from assms(1) have "updateMany_loop repo records [] w = (res, w')"
    by (simp add: updateMany_def)
  from loop_log[OF this] obtain ys where
    ys: "exchanges w' = exchanges w @ ys"
        "\<forall>q r e. (q, r) \<in> set ys \<and> resp_error r = Some e \<longrightarrow> res = Inl e \<and> last ys = (q, r)"
    by blast
  from ys(1) have "answered w w' = ys" by (simp add: answered_def)
  with ys(2) assms(2,3) show ?thesis by blast
qed

lemma delete_error:
  "delete repo ident w = (res, w') \<Longrightarrow> (q, r) \<in> set (answered w w') \<Longrightarrow> resp_error r = Some e \<Longrightarrow>
     res = Inl e \<and> last (answered w w') = (q, r)"
  by (auto dest!: delete_run await_answered)

lemma deleteMany_error:
  "deleteMany repo ids w = (res, w') \<Longrightarrow> (q, r) \<in> set (answered w w') \<Longrightarrow> resp_error r = Some e \<Longrightarrow>
     res = Inl e \<and> last (answered w w') = (q, r)"
  by (auto dest!: deleteMany_run await_answered)

lemma upsert_error:
  "upsert repo d cols w = (res, w') \<Longrightarrow> (q, r) \<in> set (answered w w') \<Longrightarrow> resp_error r = Some e \<Longrightarrow>
     res = Inl e \<and> last (answered w w') = (q, r)"
  by (auto dest!: upsert_run await_answered)

lemma exists_error:
  "exists repo f w = (res, w') \<Longrightarrow> (q, r) \<in> set (answered w w') \<Longrightarrow> resp_error r = Some e \<Longrightarrow>
     res = Inl e \<and> last (answered w w') = (q, r)"
  by (auto dest!: exists_run await_answered)

lemma count_error:
  "count repo f w = (res, w') \<Longrightarrow> (q, r) \<in> set (answered w w') \<Longrightarrow> resp_error r = Some e \<Longrightarrow>
     res = Inl e \<and> last (answered w w') = (q, r)"
  by (auto dest!: count_run await_answered)

subsection \<open>Unfolding a concrete run\<close>

lemmas run_defs = get_def find_rows_def findPaginated_def getTotalCount_def getPaginatedData_def
  applyOrderBy_def order_by_def orderByArray_def create_def update_def delete_def upsert_def
  exists_def count_def createMany_def updateMany_def deleteMany_def await_def scripted_def
  success_def failure_def Math_ceil_js_div_int Let_def get_prop_def rest_without_def
  update_query_def answered_def issued_def users_repo_def fresh_def countQuery_of_def dataQuery_of_def

section \<open>The properties\<close>

text \<open>
  \<^bold>\<open>C1\<close> (\<open>get\<close>, src/base-repository.ts lines 16-24). The claim: when the single-row
  select for an id finds no matching row, \<open>get(id)\<close> returns null and does not throw;
  any other error of the client is thrown.

  \<open>get\<close> has one test on the response, \<open>if (error) throw error\<close>: it returns null
  exactly when the client answers with null data and no error, and it throws every
  error the response carries, whatever the error says (lemma \<open>get_outcome\<close> above).
  The wrapped client's \<open>.single()\<close> reports a lookup that matched no row as an error
  with code PGRST116 (docs/api.md, section Error Handling, shows that error caught
  around \<open>get('non-existent-id')\<close>). On that response \<open>get\<close> throws, while its return
  type \<open>Promise<T | null>\<close>, docs/api.md (\<open>The record if found, null otherwise\<close>)
  and the test \<open>should return null when record not found\<close> all promise null. The
  theorem runs \<open>get('999')\<close> against that response.
\<close>

theorem get_throws_when_no_row_is_an_error:
  "fst (get users_repo (Str ''999'')
          (fresh [failure (PostgrestError ''PGRST116''
                    ''JSON object requested, multiple (or no) rows returned'')]))
     = Inl (PostgrestError ''PGRST116'' ''JSON object requested, multiple (or no) rows returned'')"
  by (simp add: run_defs)





text \<open>
  \<^bold>\<open>C4\<close> (\<open>updateMany\<close>). Let the client answer the update chains of the records
  one after another, each in the database state the previous answer left (\<open>serve\<close>).
  If none of these answers carries an error, \<open>updateMany\<close> awaits exactly these
  chains, one per record and in the order of the input, gets exactly these answers
  (each update starts from the state its predecessor left: there is never a second
  update under way), leaves the database in the state after the last one, and
  returns the rows of the answers in input order, as many as there are records.
\<close>

theorem updateMany_sequential:
  assumes "serve (client repo) (map (update_query repo) records) (db w) = (xs, s')"
      and "\<forall>(q, r) \<in> set xs. resp_error r = None"
  shows "\<exists>results w'.
           updateMany repo records w = (Inr results, w') \<and>
           issued w w' = map (update_query repo) records \<and>
           answered w w' = xs \<and> db w' = s' \<and>
           results = map (resp_data \<circ> snd) xs \<and>
           length results = length records"
proof -
  from serve_update_queries[OF assms(1)]
  have len: "length xs = length records" and qs: "map fst xs = map (update_query repo) records"
    by simp_all
  from loop_all_succeed[OF assms, of "[]"]
  have "updateMany repo records w =
          (Inr (map (resp_data \<circ> snd) xs), \<lparr>db = s', exchanges = exchanges w @ xs\<rparr>)"
    by (simp add: updateMany_def)
  with len qs show ?thesis
    by (simp add: issued_def answered_def)
qed

text \<open>Two updates that both succeed.\<close>

theorem updateMany_sequential_witness:
  "updateMany users_repo
     [[(''id'', Str ''1''), (''name'', Str ''John Updated'')], [(''id'', Str ''2''), (''age'', Num 32)]]
     (fresh [success (DRow john) None, success (DRow jane) None])
   = (Inr [DRow john, DRow jane],
      \<lparr>db = [],
       exchanges =
         [([From ''users'', Update [(''name'', Str ''John Updated'')], Eq ''id'' (Str ''1''),
            Select None None False, Single], success (DRow john) None),
          ([From ''users'', Update [(''age'', Num 32)], Eq ''id'' (Str ''2''),
            Select None None False, Single], success (DRow jane) None)]\<rparr>)"
proof -
  let ?records = "[[(''id'', Str ''1''), (''name'', Str ''John Updated'')], [(''id'', Str ''2''), (''age'', Num 32)]]"
  let ?s = "[success (DRow john) None, success (DRow jane) None]"
  let ?srv = "serve (client users_repo) (map (update_query users_repo) ?records) (db (fresh ?s))"
  have ok: "\<forall>(q, r) \<in> set (fst ?srv). resp_error r = None"
    by (simp add: run_defs)
  from updateMany_sequential[OF out_eq ok] show ?thesis
    by (auto simp: run_defs)
qed

text \<open>
  \<^bold>\<open>C5\<close> (\<open>updateMany\<close>, \<open>update\<close>). If the updates of the records before
  position \<open>k\<close> (counted from 0) succeed and the update of the record at \<open>k\<close> is
  answered with error \<open>e\<close>, then \<open>updateMany\<close> throws \<open>e\<close>; it has awaited the
  update chains of the records up to \<open>k\<close> and nothing else, neither an update for a
  later record nor a query undoing an earlier one; and the database is in the state
  the client left after these \<open>k + 1\<close> calls, with the earlier updates applied.
\<close>

theorem updateMany_stops_at_failure:
  assumes "k < length records"
      and "serve (client repo) (map (update_query repo) (take (Suc k) records)) (db w) = (xs, s')"
      and "\<forall>j < k. resp_error (snd (xs ! j)) = None"
      and "resp_error (snd (xs ! k)) = Some e"
  shows "\<exists>w'. updateMany repo records w = (Inl e, w') \<and>
              issued w w' = map (update_query repo) (take (Suc k) records) \<and>
              answered w w' = xs \<and> db w' = s'"
proof -
  from serve_update_queries[OF assms(2)]
  have qs: "map fst xs = map (update_query repo) (take (Suc k) records)" by simp
  from loop_first_failure[OF assms, of "[]"]
  have "updateMany repo records w = (Inl e, \<lparr>db = s', exchanges = exchanges w @ xs\<rparr>)"
    by (simp add: updateMany_def)
  with qs show ?thesis by (simp add: issued_def answered_def)
qed

text \<open>Three records, the update of the second fails: the third is never sent.\<close>

theorem updateMany_stops_at_failure_witness:
  "updateMany users_repo
     [[(''id'', Str ''1''), (''name'', Str ''John Updated'')],
      [(''id'', Str ''999''), (''age'', Num 32)],
      [(''id'', Str ''3''), (''age'', Num 36)]]
     (fresh [success (DRow john) None,
             failure (PostgrestError ''PGRST116'' ''no rows''),
             success (DRow bob) None])
   = (Inl (PostgrestError ''PGRST116'' ''no rows''),
      \<lparr>db = [success (DRow bob) None],
       exchanges =
         [([From ''users'', Update [(''name'', Str ''John Updated'')], Eq ''id'' (Str ''1''),
            Select None None False, Single], success (DRow john) None),
          ([From ''users'', Update [(''age'', Num 32)], Eq ''id'' (Str ''999''),
            Select None None False, Single], failure (PostgrestError ''PGRST116'' ''no rows''))]\<rparr>)"
proof -
  let ?records = "[[(''id'', Str ''1''), (''name'', Str ''John Updated'')],
      [(''id'', Str ''999''), (''age'', Num 32)],
      [(''id'', Str ''3''), (''age'', Num 36)]]"
  let ?s = "[success (DRow john) None,
             failure (PostgrestError ''PGRST116'' ''no rows''),
             success (DRow bob) None]"
  let ?srv = "serve (client users_repo) (map (update_query users_repo) (take (Suc 1) ?records)) (db (fresh ?s))"
  have k: "1 < length ?records" by simp
  have ok: "\<forall>j < 1. resp_error (snd (fst ?srv ! j)) = None"
    by (simp add: run_defs)
  have bad: "resp_error (snd (fst ?srv ! 1)) = Some (PostgrestError ''PGRST116'' ''no rows'')"
    by (simp add: run_defs)
  from updateMany_stops_at_failure[OF k out_eq ok bad] show ?thesis
    by (auto simp: run_defs)
qed

text \<open>
  \<^bold>\<open>C6\<close> (all public methods). Whichever public method is called (\<open>get\<close>,
  \<open>find\<close>, \<open>findPaginated\<close>, \<open>create\<close>, \<open>createMany\<close>, \<open>update\<close>,
  \<open>updateMany\<close>, \<open>delete\<close>, \<open>deleteMany\<close>, \<open>upsert\<close>, \<open>exists\<close>,
  \<open>count\<close>): if a query awaited during the call is answered with an error \<open>e\<close>,
  the call throws that very \<open>e\<close>, and the failed exchange is the last one of the
  call (nothing is retried or undone afterwards).
\<close>

theorem errors_rethrown_verbatim:
  assumes "invoke repo c w = (res, w')"
      and "(q, r) \<in> set (answered w w')"
      and "resp_error r = Some e"
  shows "res = Inl e \<and> last (answered w w') = (q, r)"
proof -
  have key: "\<And>f out. returning f out = (res, w') \<Longrightarrow>
              (\<And>res0. out = (res0, w') \<Longrightarrow> res0 = Inl e \<and> last (answered w w') = (q, r)) \<Longrightarrow>
              res = Inl e \<and> last (answered w w') = (q, r)"
    by (auto simp: returning_def split: prod.splits sum.splits)
  show ?thesis
  proof (cases c)
    case (CallGet ident)
    with assms(1) have "returning RData (get repo ident w) = (res, w')" by (simp add: invoke_def)
    then show ?thesis
      by (rule key) (rule get_error[OF _ assms(2,3)])
  next
    case (CallFind options)
    with assms(1) have "returning RData (find_rows repo options w) = (res, w')" by (simp add: invoke_def)
    then show ?thesis
      by (rule key) (rule find_rows_error[OF _ assms(2,3)])
  next
    case (CallFindPaginated options)
    with assms(1) have "returning RPage (findPaginated repo options w) = (res, w')" by (simp add: invoke_def)
    then show ?thesis
      by (rule key) (rule findPaginated_error[OF _ assms(2,3)])
  next
    case (CallCreate d)
    with assms(1) have "returning RData (create repo d w) = (res, w')" by (simp add: invoke_def)
    then show ?thesis
      by (rule key) (rule create_error[OF _ assms(2,3)])
  next
    case (CallCreateMany records)
    with assms(1) have "returning RData (createMany repo records w) = (res, w')" by (simp add: invoke_def)
    then show ?thesis
      by (rule key) (rule createMany_error[OF _ assms(2,3)])
  next
    case (CallUpdate ident d)
    with assms(1) have "returning RData (update repo ident d w) = (res, w')" by (simp add: invoke_def)
    then show ?thesis
      by (rule key) (rule update_error[OF _ assms(2,3)])
  next
    case (CallUpdateMany records)
    with assms(1) have "returning RList (updateMany repo records w) = (res, w')" by (simp add: invoke_def)
    then show ?thesis
      by (rule key) (rule updateMany_error[OF _ assms(2,3)])
  next
    case (CallDelete ident)
    with assms(1) have "returning (\<lambda>_. RVoid) (delete repo ident w) = (res, w')" by (simp add: invoke_def)
    then show ?thesis
      by (rule key) (rule delete_error[OF _ assms(2,3)])
  next
    case (CallDeleteMany ids)
    with assms(1) have "returning (\<lambda>_. RVoid) (deleteMany repo ids w) = (res, w')" by (simp add: invoke_def)
    then show ?thesis
      by (rule key) (rule deleteMany_error[OF _ assms(2,3)])
  next
    case (CallUpsert d cols)
    with assms(1) have "returning RData (upsert repo d cols w) = (res, w')" by (simp add: invoke_def)
    then show ?thesis
      by (rule key) (rule upsert_error[OF _ assms(2,3)])
  next
    case (CallExists f)
    with assms(1) have "returning RBool (exists repo f w) = (res, w')" by (simp add: invoke_def)
    then show ?thesis
      by (rule key) (rule exists_error[OF _ assms(2,3)])
  next
    case (CallCount f)
    with assms(1) have "returning RNumber (count repo f w) = (res, w')" by (simp add: invoke_def)
    then show ?thesis
      by (rule key) (rule count_error[OF _ assms(2,3)])
  qed
qed

text \<open>A page request whose data query times out.\<close>

theorem errors_rethrown_verbatim_witness:
  "fst (invoke users_repo
          (CallFindPaginated \<lparr>filter_fn = None, orderBy = None, page = 1, pageSize = 10\<rparr>)
          (fresh [success DNull (Some 3),
                  failure (PostgrestError ''57014'' ''canceling statement due to statement timeout'')]))
     = Inl (PostgrestError ''57014'' ''canceling statement due to statement timeout'')"
proof -
  let ?w = "fresh [success DNull (Some 3),
                  failure (PostgrestError ''57014'' ''canceling statement due to statement timeout'')]"
  let ?out = "invoke users_repo
          (CallFindPaginated \<lparr>filter_fn = None, orderBy = None, page = 1, pageSize = 10\<rparr>) ?w"
  let ?q = "[From ''users'', Select None None False, Range 0 9]"
  let ?r = "failure (PostgrestError ''57014'' ''canceling statement due to statement timeout'')"
  have mem: "(?q, ?r) \<in> set (answered ?w (snd ?out))"
    by (simp add: invoke_def returning_def run_defs)
  have err: "resp_error ?r = Some (PostgrestError ''57014'' ''canceling statement due to statement timeout'')"
    by (simp add: failure_def)
  from errors_rethrown_verbatim[OF out_eq mem err] show ?thesis
    by simp
qed

text \<open>
  \<^bold>\<open>C7\<close> (\<open>exists\<close>, \<open>count\<close>). \<open>exists(filter)\<close> awaits a single query, the
  filter applied to \<open>select('id', { count: 'exact', head: true })\<close>, and
  \<open>count(filter)\<close> a single query, the filter applied to
  \<open>select('*', { count: 'exact', head: true })\<close>. When its query succeeds,
  \<open>exists\<close> returns whether the reported count is greater than zero; and when
  both queries succeed with the same count, \<open>exists(filter) = (count(filter) > 0)\<close>.
\<close>

theorem exists_agrees_with_count:
  assumes "exists repo f w1 = (found, w1')"
      and "count repo (Some f) w2 = (n, w2')"
  shows "\<exists>r1 r2.
           answered w1 w1' = [(f [From (tableName repo), Select (Some ''id'') (Some ''exact'') True], r1)] \<and>
           answered w2 w2' = [(f [From (tableName repo), Select (Some ''*'') (Some ''exact'') True], r2)] \<and>
           (\<forall>c. resp_error r1 = None \<and> resp_count r1 = Some c \<longrightarrow> found = Inr (0 < c)) \<and>
           (resp_error r1 = None \<and> resp_error r2 = None \<and> resp_count r1 = resp_count r2 \<longrightarrow>
              (\<exists>c. n = Inr c \<and> found = Inr (0 < c)))"
proof -
  from exists_run[OF assms(1)] obtain r1 where
    a1: "await repo (f [From (tableName repo), Select (Some ''id'') (Some ''exact'') True]) w1 = (r1, w1')"
    and f: "found = (case resp_error r1 of Some e \<Rightarrow> Inl e
                 | None \<Rightarrow> Inr (0 < (case resp_count r1 of Some n \<Rightarrow> n | None \<Rightarrow> 0)))"
    by blast
  from count_run[OF assms(2)] obtain r2 where
    a2: "await repo (f [From (tableName repo), Select (Some ''*'') (Some ''exact'') True]) w2 = (r2, w2')"
    and n: "n = (case resp_error r2 of Some e \<Rightarrow> Inl e
                 | None \<Rightarrow> Inr (case resp_count r2 of Some n \<Rightarrow> n | None \<Rightarrow> 0))"
    by (auto simp: countQuery_of_def)
  from await_answered[OF a1] await_answered[OF a2] f n show ?thesis
    by auto
qed

text \<open>One user has the address asked for.\<close>

theorem exists_agrees_with_count_witness:
  "fst (exists users_repo (\<lambda>query. query @ [Eq ''email'' (Str ''john@example.com'')])
          (fresh [success DNull (Some 1)])) = Inr True
   \<and> fst (count users_repo (Some (\<lambda>query. query @ [Eq ''email'' (Str ''john@example.com'')]))
          (fresh [success DNull (Some 1)])) = Inr 1"
proof -
  let ?f = "\<lambda>query. query @ [Eq ''email'' (Str ''john@example.com'')]"
  let ?w = "fresh [success DNull (Some 1)]"
  from exists_agrees_with_count[of users_repo ?f ?w _ _ ?w, OF out_eq out_eq]
  show ?thesis
    by (auto simp: run_defs)
qed

text \<open>
  \<^bold>\<open>C8\<close> (\<open>upsert\<close>). \<open>upsert(data, conflictColumns)\<close> awaits exactly one
  query, \<open>from(table).upsert(data, { onConflict }).select().single()\<close>, whose
  \<open>onConflict\<close> is \<open>conflictColumns.join(',')\<close>, and on success returns the data of
  the response, the single resulting row.
\<close>

theorem upsert_one_call:
  assumes "upsert repo d conflictColumns w = (res, w')"
  shows "\<exists>r. answered w w' =
              [([From (tableName repo), Upsert d (join conflictColumns '',''),
                 Select None None False, Single], r)] \<and>
             (resp_error r = None \<longrightarrow> res = Inr (resp_data r))"
  using upsert_run[OF assms] by (auto dest!: await_answered)

text \<open>An upsert keyed on two columns.\<close>

theorem upsert_one_call_witness:
  "upsert users_repo [(''tenant_id'', Num 7), (''email'', Str ''john@example.com''), (''age'', Num 31)]
     [''tenant_id'', ''email''] (fresh [success (DRow john) None])
   = (Inr (DRow john),
      \<lparr>db = [],
       exchanges =
         [([From ''users'',
            Upsert [(''tenant_id'', Num 7), (''email'', Str ''john@example.com''), (''age'', Num 31)]
              ''tenant_id,email'',
            Select None None False, Single], success (DRow john) None)]\<rparr>)"
proof -
  let ?w = "fresh [success (DRow john) None]"
  from upsert_one_call[of users_repo _ "[''tenant_id'', ''email'']" ?w, OF out_eq]
  show ?thesis
    by (auto simp: run_defs)
qed

text \<open>
  \<^bold>\<open>C9\<close> (\<open>updateMany\<close>, \<open>update\<close>). Every query \<open>updateMany\<close> awaits, whether
  the call succeeds or throws, is the update chain of one of the records: it selects
  the row by the record's \<open>id\<close>, and its payload is the record without the key
  \<open>id\<close>, every other field unchanged. So \<open>id\<close> is never among the columns written.
\<close>

theorem updateMany_payload_without_id:
  assumes "updateMany repo records w = (res, w')"
      and "q \<in> set (issued w w')"
  shows "\<exists>record payload.
           record \<in> set records \<and>
           q = [From (tableName repo), Update payload, Eq ''id'' (get_prop record ''id''),
                Select None None False, Single] \<and>
           payload = rest_without ''id'' record \<and>
           ''id'' \<notin> fst ` set payload \<and>
           (\<forall>k. k \<noteq> ''id'' \<longrightarrow> map_of payload k = map_of record k)"
proof -
  from assms(1) have "updateMany_loop repo records [] w = (res, w')"
    by (simp add: updateMany_def)
  from loop_log[OF this] obtain ys where
    ys: "exchanges w' = exchanges w @ ys"
        "map fst ys = map (update_query repo) (take (length ys) records)"
    by blast
  from ys(1) have "issued w w' = map fst ys" by (simp add: issued_def)
  with ys(2) assms(2) obtain rcd where
    rcd: "rcd \<in> set (take (length ys) records)" "q = update_query repo rcd"
    by auto
  from rcd(1) have "rcd \<in> set records" by (rule in_set_takeD)
  with rcd(2) show ?thesis
    by (auto simp: update_query_def rest_without_keys rest_without_lookup)
qed

text \<open>The two payloads of the run above.\<close>

theorem updateMany_payload_without_id_witness:
  "issued (fresh [success (DRow john) None, success (DRow jane) None])
     (snd (updateMany users_repo
        [[(''id'', Str ''1''), (''name'', Str ''John Updated'')], [(''id'', Str ''2''), (''age'', Num 32)]]
        (fresh [success (DRow john) None, success (DRow jane) None])))
   = [[From ''users'', Update [(''name'', Str ''John Updated'')], Eq ''id'' (Str ''1''),
       Select None None False, Single],
      [From ''users'', Update [(''age'', Num 32)], Eq ''id'' (Str ''2''),
       Select None None False, Single]]"
proof -
  let ?records = "[[(''id'', Str ''1''), (''name'', Str ''John Updated'')], [(''id'', Str ''2''), (''age'', Num 32)]]"
  let ?w = "fresh [success (DRow john) None, success (DRow jane) None]"
  let ?out = "updateMany users_repo ?records ?w"
  let ?q = "[From ''users'', Update [(''name'', Str ''John Updated'')], Eq ''id'' (Str ''1''),
       Select None None False, Single]"
  have mem: "?q \<in> set (issued ?w (snd ?out))"
    by (simp add: run_defs)
  from updateMany_payload_without_id[OF out_eq mem] show ?thesis
    by (simp add: run_defs)
qed




end
